theory Spec2Isabelle
  imports Main
begin

section \<open>JavaScript values\<close>

text \<open>
  The downloader handles the parsed response as an untyped JavaScript value
  (\<^verbatim>\<open>unknown\<close> in \<^verbatim>\<open>download.ts\<close>) and decides by truthiness, so
  the model carries the values of JavaScript that a \<^verbatim>\<open>JSON.parse\<close> can
  produce, together with \<^verbatim>\<open>undefined\<close> (a missing property) and the one
  function value the code can reach: \<^verbatim>\<open>Array.prototype.entries\<close>, which
  \<^verbatim>\<open>json["entries"]\<close> returns when \<^verbatim>\<open>json\<close> is an array.

  Numbers are integers: the values of an ordered data store are integers, and the model
  does not cover fractions or the exponent notation JavaScript prints from \<open>10^21\<close> on.
  An object is the list of its own properties in enumeration order.
\<close>

datatype js =
    JUndefined
  | JNull
  | JBool bool
  | JNum int
  | JStr string
  | JArr "js list"
  | JObj "(string \<times> js) list"
  | JFun

text \<open>Truthiness, as \<^verbatim>\<open>if (x)\<close>, \<^verbatim>\<open>!x\<close> and \<^verbatim>\<open>a && b\<close> test it.\<close>

fun truthy :: "js \<Rightarrow> bool" where
  "truthy JUndefined = False"
| "truthy JNull = False"
| "truthy (JBool b) = b"
| "truthy (JNum n) = (n \<noteq> 0)"
| "truthy (JStr s) = (s \<noteq> [])"
| "truthy (JArr xs) = True"
| "truthy (JObj kvs) = True"
| "truthy JFun = True"

text \<open>\<^verbatim>\<open>typeof x\<close>; note that \<^verbatim>\<open>typeof null\<close> is \<^verbatim>\<open>"object"\<close>.\<close>

fun typeof :: "js \<Rightarrow> string" where
  "typeof JUndefined = ''undefined''"
| "typeof JNull = ''object''"
| "typeof (JBool b) = ''boolean''"
| "typeof (JNum n) = ''number''"
| "typeof (JStr s) = ''string''"
| "typeof (JArr xs) = ''object''"
| "typeof (JObj kvs) = ''object''"
| "typeof JFun = ''function''"

datatype error =
    FetchFailed
  | TextUnreadable
  | UnexpectedStatus
  | Ratelimit
  | ParseFailed
  | InvalidStructure
  | TypeError

text \<open>
  Property access \<^verbatim>\<open>x[k]\<close> for the keys the downloader reads
  (\<^verbatim>\<open>entries\<close>, \<^verbatim>\<open>nextPageToken\<close>, \<^verbatim>\<open>id\<close>, \<^verbatim>\<open>value\<close>):
  it throws a TypeError on \<^verbatim>\<open>null\<close> and \<^verbatim>\<open>undefined\<close>, reads an
  object's own property, finds the built-in method \<^verbatim>\<open>entries\<close> on an array and
  nothing else on an array or a primitive.
\<close>

fun js_get :: "js \<Rightarrow> string \<Rightarrow> error + js" where
  "js_get JUndefined k = Inl TypeError"
| "js_get JNull k = Inl TypeError"
| "js_get (JObj kvs) k = Inr (case map_of kvs k of None \<Rightarrow> JUndefined | Some v \<Rightarrow> v)"
| "js_get (JArr xs) k = Inr (if k = ''entries'' then JFun else JUndefined)"
| "js_get (JBool b) k = Inr JUndefined"
| "js_get (JNum n) k = Inr JUndefined"
| "js_get (JStr s) k = Inr JUndefined"
| "js_get JFun k = Inr JUndefined"

text \<open>\<^verbatim>\<open>Object.values(x)\<close> of a value that is neither null nor undefined.\<close>

fun object_values :: "js \<Rightarrow> js list" where
  "object_values (JObj kvs) = map snd kvs"
| "object_values (JArr xs) = xs"
| "object_values (JStr s) = map (\<lambda>c. JStr [c]) s"
| "object_values v = []"

text \<open>Decimal digits of a natural number and of an integer, as a template literal prints them.\<close>

fun nat_to_string :: "nat \<Rightarrow> string" where
  "nat_to_string n =
     (if n < 10 then [''0123456789'' ! n]
      else nat_to_string (n div 10) @ [''0123456789'' ! (n mod 10)])"

declare nat_to_string.simps [simp del]

definition int_to_string :: "int \<Rightarrow> string" where
  "int_to_string i = (if i < 0 then CHR ''-'' # nat_to_string (nat (- i)) else nat_to_string (nat i))"

fun join_comma :: "string list \<Rightarrow> string" where
  "join_comma [] = []"
| "join_comma [s] = s"
| "join_comma (s # t # ss) = s @ '','' @ join_comma (t # ss)"

text \<open>String conversion, as \<^verbatim>\<open>${x}\<close> in a template literal performs it.\<close>

fun js_to_string :: "js \<Rightarrow> string" where
  "js_to_string JUndefined = ''undefined''"
| "js_to_string JNull = ''null''"
| "js_to_string (JBool b) = (if b then ''true'' else ''false'')"
| "js_to_string (JNum n) = int_to_string n"
| "js_to_string (JStr s) = s"
| "js_to_string (JArr xs) =
     join_comma (map (\<lambda>x. if x = JNull \<or> x = JUndefined then [] else js_to_string x) xs)"
| "js_to_string (JObj kvs) = ''[object Object]''"
| "js_to_string JFun = ''function entries() { [native code] }''"

section \<open>Position recovery\<close>

record Position =
  nextPageToken :: js
  page :: int

text \<open>\<^verbatim>\<open>line.indexOf(" ")\<close>: the index of the first occurrence, or \<open>-1\<close>.\<close>

fun indexOf :: "string \<Rightarrow> char \<Rightarrow> int" where
  "indexOf [] c = - 1"
| "indexOf (x # xs) c =
     (if x = c then 0 else (let r = indexOf xs c in if r < 0 then - 1 else r + 1))"

text \<open>\<^verbatim>\<open>line.substring(0, e)\<close>: the end index is clamped to \<open>0 .. length\<close>.\<close>

definition substring0 :: "string \<Rightarrow> int \<Rightarrow> string" where
  "substring0 s e = take (nat (max 0 (min e (int (length s))))) s"

text \<open>
  The body of the \<^verbatim>\<open>for await\<close> loop of \<^verbatim>\<open>getLastPosition\<close>: the
  state is the result record and the counter \<^verbatim>\<open>i\<close>.
\<close>

fun readLines_loop :: "Position \<Rightarrow> int \<Rightarrow> string list \<Rightarrow> Position" where
  "readLines_loop result i [] = result"
| "readLines_loop result i (line # rest) =
     (if length line = 0 then readLines_loop result i rest
      else
        (let firstSpace = indexOf line (CHR '' '');
             tok = substring0 line firstSpace;
             nextPageToken = (if tok = ''null'' then JNull else JStr tok)
         in readLines_loop \<lparr>nextPageToken = nextPageToken, page = i\<rparr> (i + 1) rest))"

text \<open>
  \<^verbatim>\<open>getLastPosition\<close>: the argument is \<open>None\<close> when the log file does not
  exist and the list of its lines otherwise.
\<close>

definition getLastPosition :: "string list option \<Rightarrow> Position" where
  "getLastPosition log =
     (case log of
        None \<Rightarrow> \<lparr>nextPageToken = JNull, page = 1\<rparr>
      | Some lines \<Rightarrow> readLines_loop \<lparr>nextPageToken = JNull, page = 1\<rparr> 2 lines)"

section \<open>Page fetcher\<close>

text \<open>
  The query of the request, as the list of pairs that
  \<^verbatim>\<open>url.searchParams.append\<close> builds in \<^verbatim>\<open>downloadPage\<close>.
\<close>

definition searchParams :: "Position \<Rightarrow> (string \<times> string) list" where
  "searchParams position =
     [(''max_page_size'', ''100''), (''order_by'', ''desc'')] @
     (if truthy (nextPageToken position)
      then [(''page_token'', js_to_string (nextPageToken position))]
      else [])"

text \<open>
  What the network answers. A response body is either unreadable
  (\<^verbatim>\<open>response.text()\<close> rejects) or a text, which the model represents by what
  \<^verbatim>\<open>JSON.parse\<close> makes of it: \<open>None\<close> when it throws.
\<close>

datatype body = BodyUnreadable | BodyText "js option"

datatype fetch_outcome = NetworkError | Response int body

text \<open>
  \<^verbatim>\<open>downloadPage\<close>: every \<^verbatim>\<open>throw\<close> is an \<open>Inl\<close>. The status test is
  the conjunction the source writes.
\<close>

definition downloadPage ::
  "Position \<Rightarrow> ((string \<times> string) list \<Rightarrow> fetch_outcome) \<Rightarrow> error + js" where
  "downloadPage position fetch =
     (case fetch (searchParams position) of
        NetworkError \<Rightarrow> Inl FetchFailed
      | Response status b \<Rightarrow>
          (case b of
             BodyUnreadable \<Rightarrow> Inl TextUnreadable
           | BodyText parsed \<Rightarrow>
               if status \<noteq> 429 \<and> status < 200 \<and> status \<ge> 300 then Inl UnexpectedStatus
               else if status = 429 then Inl Ratelimit
               else (case parsed of
                       None \<Rightarrow> Inl ParseFailed
                     | Some json \<Rightarrow>
                         (case js_get json ''entries'' of
                            Inl e \<Rightarrow> Inl e
                          | Inr entries \<Rightarrow>
                              if truthy entries then Inr json else Inl InvalidStructure))))"

section \<open>The main loop of \<^verbatim>\<open>run\<close> (download.ts)\<close>

definition STARTING_BACKOFF :: int where
  "STARTING_BACKOFF = 5"

definition INCREMENT_BACKOFF :: int where
  "INCREMENT_BACKOFF = 5"

definition logMessage :: "js \<Rightarrow> Position \<Rightarrow> string" where
  "logMessage nextToken position =
     js_to_string nextToken @ '' <- Next page token | Got page '' @
     int_to_string (page position) @ '' ('' @ js_to_string (nextPageToken position) @ '')''"

record run_state =
  position :: Position
  backoff :: int

definition initial_state :: "string list option \<Rightarrow> run_state" where
  "initial_state log = \<lparr>position = getLastPosition log, backoff = STARTING_BACKOFF\<rparr>"

text \<open>
  What one pass of the loop does to the outside, in order. \<open>Teardown\<close> is a call of
  the \<^verbatim>\<open>teardown\<close> closure, by a signal handler or at the end of \<^verbatim>\<open>run\<close>.
  Console output is left out.
\<close>

datatype action =
    Fetch "(string \<times> string) list"
  | Sleep int
  | TaskPush js
  | LogPush string
  | Teardown

datatype flow = Continue run_state | Break | Throw error

text \<open>The failure branch of the loop: sleep for the current backoff, then increase it.\<close>

definition back_off :: "run_state \<Rightarrow> action list \<times> flow" where
  "back_off s = ([Sleep (backoff s)], Continue (s\<lparr>backoff := backoff s + INCREMENT_BACKOFF\<rparr>))"

text \<open>
  The body of the \<^verbatim>\<open>while\<close> loop. \<^verbatim>\<open>maybeJson\<close> is
  \<^verbatim>\<open>undefined\<close> when \<^verbatim>\<open>downloadPage\<close> rejected; \<^verbatim>\<open>a || b\<close>
  evaluates \<^verbatim>\<open>b\<close> only when \<^verbatim>\<open>a\<close> is false.
\<close>

definition iteration ::
  "run_state \<Rightarrow> ((string \<times> string) list \<Rightarrow> fetch_outcome) \<Rightarrow> action list \<times> flow" where
  "iteration s fetch =
     (let maybeJson = (case downloadPage (position s) fetch of Inl e \<Rightarrow> JUndefined | Inr json \<Rightarrow> json);
          request = Fetch (searchParams (position s))
      in if truthy maybeJson then
           (case js_get maybeJson ''entries'' of
              Inl e \<Rightarrow> ([request], Throw e)
            | Inr entries \<Rightarrow>
                if truthy entries then
                  (case js_get maybeJson ''nextPageToken'' of
                     Inl e \<Rightarrow> ([request], Throw e)
                   | Inr nextToken \<Rightarrow>
                       ([request, TaskPush maybeJson, LogPush (logMessage nextToken (position s))],
                        if truthy nextToken
                        then Continue \<lparr>position = \<lparr>nextPageToken = nextToken,
                                                     page = page (position s) + 1\<rparr>,
                                       backoff = STARTING_BACKOFF\<rparr>
                        else Break))
                else (request # fst (back_off s), snd (back_off s)))
         else (request # fst (back_off s), snd (back_off s)))"

text \<open>
  The environment of one pass: what the network answers, and whether a termination
  signal (SIGINT, SIGTERM, SIGQUIT) arrives while the pass awaits the answer.
\<close>

record tick =
  answer :: "(string \<times> string) list \<Rightarrow> fetch_outcome"
  signal :: bool

text \<open>
  \<^verbatim>\<open>while (true)\<close> of download.ts, run against a script of the environment (the
  observation ends with the script). The signal handler is \<^verbatim>\<open>teardown\<close>, which
  assigns no variable of the loop, so a signal adds a \<open>Teardown\<close> to the trace and
  changes nothing else. After the loop \<^verbatim>\<open>run\<close> calls \<^verbatim>\<open>teardown\<close>.
\<close>

fun main_loop :: "run_state \<Rightarrow> tick list \<Rightarrow> action list" where
  "main_loop s [] = []"
| "main_loop s (t # ts) =
     (let r = iteration s (answer t);
          acts = (case fst r of
                    [] \<Rightarrow> []
                  | request # rest \<Rightarrow> request # (if signal t then [Teardown] else []) @ rest)
      in case snd r of
           Continue s' \<Rightarrow> acts @ main_loop s' ts
         | Break \<Rightarrow> acts @ [Teardown]
         | Throw e \<Rightarrow> acts)"

section \<open>Write pipeline\<close>

datatype write_event = DataWrite string | LogWrite string

text \<open>
  The body of the \<^verbatim>\<open>for\<close> loop of the \<^verbatim>\<open>taskQueue\<close> worker of
  download.ts: the row it writes for an entry, if any.
\<close>

definition taskQueue_entry :: "js \<Rightarrow> error + string option" where
  "taskQueue_entry entry =
     (case js_get entry ''id'' of
        Inl e \<Rightarrow> Inl e
      | Inr id' \<Rightarrow>
          (case js_get entry ''value'' of
             Inl e \<Rightarrow> Inl e
           | Inr val \<Rightarrow>
               if truthy id' \<and> truthy val
               then Inr (Some (js_to_string id' @ '','' @ js_to_string val @ ''\<newline>''))
               else Inr None))"

text \<open>The same body in the \<^verbatim>\<open>writeTaskQueue\<close> worker (the later revision of the file).\<close>

definition writeTaskQueue_entry :: "js \<Rightarrow> error + string option" where
  "writeTaskQueue_entry entry =
     (case js_get entry ''id'' of
        Inl e \<Rightarrow> Inl e
      | Inr id' \<Rightarrow>
          (case js_get entry ''value'' of
             Inl e \<Rightarrow> Inl e
           | Inr val \<Rightarrow>
               if truthy id' \<and> typeof val = ''number''
               then Inr (Some (js_to_string id' @ '','' @ js_to_string val @ ''\<newline>''))
               else Inr None))"

text \<open>
  The \<^verbatim>\<open>for\<close> loop over \<^verbatim>\<open>Object.values(entries)\<close>: the rows written,
  in order, and the error that ended the loop early, if one did.
\<close>

fun write_entries :: "(js \<Rightarrow> error + string option) \<Rightarrow> js list \<Rightarrow> string list \<times> error option" where
  "write_entries row [] = ([], None)"
| "write_entries row (entry # rest) =
     (case row entry of
        Inl e \<Rightarrow> ([], Some e)
      | Inr None \<Rightarrow> write_entries row rest
      | Inr (Some r) \<Rightarrow> (r # fst (write_entries row rest), snd (write_entries row rest)))"

text \<open>The entries a worker iterates over; \<open>Inr []\<close> stands for its early \<^verbatim>\<open>return\<close>.\<close>

definition task_entries :: "js \<Rightarrow> error + js list" where
  "task_entries json =
     (if typeof json \<noteq> ''object'' then Inr []
      else (case js_get json ''entries'' of
              Inl e \<Rightarrow> Inl e
            | Inr entries \<Rightarrow> if truthy entries then Inr (object_values entries) else Inr []))"

text \<open>The \<^verbatim>\<open>taskQueue\<close> worker of download.ts on one task, run to its end.\<close>

definition taskQueue_worker :: "js \<Rightarrow> write_event list \<times> error option" where
  "taskQueue_worker json =
     (case task_entries json of
        Inl e \<Rightarrow> ([], Some e)
      | Inr entries \<Rightarrow>
          (map DataWrite (fst (write_entries taskQueue_entry entries)),
           snd (write_entries taskQueue_entry entries)))"

text \<open>The \<^verbatim>\<open>logQueue\<close> worker of download.ts on one message.\<close>

definition logQueue_worker :: "string \<Rightarrow> write_event list" where
  "logQueue_worker message = [LogWrite (message @ ''\<newline>'')]"

text \<open>
  The \<^verbatim>\<open>writeTaskQueue\<close> worker of the later revision on one task
  \<^verbatim>\<open>{json, logMessage}\<close>: the log line follows the rows in the same worker, and is
  not written after an early \<^verbatim>\<open>return\<close> or an error.
\<close>

definition writeTaskQueue_worker :: "js \<times> string \<Rightarrow> write_event list \<times> error option" where
  "writeTaskQueue_worker task =
     (if typeof (fst task) \<noteq> ''object'' then ([], None)
      else (case js_get (fst task) ''entries'' of
              Inl e \<Rightarrow> ([], Some e)
            | Inr entries \<Rightarrow>
                if truthy entries then
                  (case write_entries writeTaskQueue_entry (object_values entries) of
                     (rows, Some e) \<Rightarrow> (map DataWrite rows, Some e)
                   | (rows, None) \<Rightarrow>
                       (map DataWrite rows @ [LogWrite (snd task @ ''\<newline>'')], None))
                else ([], None)))"

subsection \<open>The two queues of download.ts\<close>

text \<open>
  download.ts pushes the page to \<^verbatim>\<open>taskQueue\<close> and the log line to
  \<^verbatim>\<open>logQueue\<close>; each queue has one worker of its own. A worker is an
  \<^verbatim>\<open>async\<close> function: it runs without interruption up to its next
  \<^verbatim>\<open>await write(...)\<close>, where it is suspended and the other worker may run. A
  schedule lists which worker is resumed next. \<open>inflight\<close> holds the entries the
  suspended task worker has not visited yet; \<open>written\<close> lists the chunks handed to
  the two streams, in time order.
\<close>

record pipeline =
  taskQueue :: "js list"
  inflight :: "js list option"
  logQueue :: "string list"
  written :: "write_event list"

definition empty_pipeline :: pipeline where
  "empty_pipeline = \<lparr>taskQueue = [], inflight = None, logQueue = [], written = []\<rparr>"

text \<open>\<^verbatim>\<open>taskQueue.push\<close> and \<^verbatim>\<open>logQueue.push\<close>, read off the trace of the loop.\<close>

fun enqueue :: "pipeline \<Rightarrow> action \<Rightarrow> pipeline" where
  "enqueue p (TaskPush json) = p\<lparr>taskQueue := taskQueue p @ [json]\<rparr>"
| "enqueue p (LogPush message) = p\<lparr>logQueue := logQueue p @ [message]\<rparr>"
| "enqueue p a = p"

text \<open>
  The \<^verbatim>\<open>for\<close> loop of the \<^verbatim>\<open>taskQueue\<close> worker from the given entries on,
  up to its next \<^verbatim>\<open>await write(...)\<close>, the end of the loop or a thrown error (which
  ends the task): the chunk written and the entries left when it is suspended.
\<close>

fun write_until_await :: "js list \<Rightarrow> write_event list \<times> js list option" where
  "write_until_await [] = ([], None)"
| "write_until_await (entry # rest) =
     (case taskQueue_entry entry of
        Inl e \<Rightarrow> ([], None)
      | Inr None \<Rightarrow> write_until_await rest
      | Inr (Some r) \<Rightarrow> ([DataWrite r], Some rest))"

definition resume :: "js list \<Rightarrow> pipeline \<Rightarrow> pipeline" where
  "resume entries p =
     p\<lparr>inflight := snd (write_until_await entries),
       written := written p @ fst (write_until_await entries)\<rparr>"

text \<open>
  The task worker resumed once: it continues the task in flight, or starts the next task
  of its queue.
\<close>

definition task_step :: "pipeline \<Rightarrow> pipeline" where
  "task_step p =
     (case inflight p of
        Some entries \<Rightarrow> resume entries p
      | None \<Rightarrow>
          (case taskQueue p of
             [] \<Rightarrow> p
           | json # q \<Rightarrow>
               (case task_entries json of
                  Inl e \<Rightarrow> p\<lparr>taskQueue := q\<rparr>
                | Inr entries \<Rightarrow> resume entries (p\<lparr>taskQueue := q\<rparr>))))"

text \<open>The log worker resumed once: it writes the next message of its queue.\<close>

definition log_step :: "pipeline \<Rightarrow> pipeline" where
  "log_step p =
     (case logQueue p of
        [] \<Rightarrow> p
      | message # q \<Rightarrow> p\<lparr>logQueue := q, written := written p @ logQueue_worker message\<rparr>)"

datatype worker = TaskWorker | LogWorker

fun pipeline_step :: "pipeline \<Rightarrow> worker \<Rightarrow> pipeline" where
  "pipeline_step p TaskWorker = task_step p"
| "pipeline_step p LogWorker = log_step p"

definition run_schedule :: "worker list \<Rightarrow> pipeline \<Rightarrow> pipeline" where
  "run_schedule ws p = foldl pipeline_step p ws"

section \<open>Definitions used to state the properties\<close>

text \<open>The lines of the log that the recovery does not skip.\<close>

definition nonempty_lines :: "string list \<Rightarrow> string list" where
  "nonempty_lines lines = filter (\<lambda>l. l \<noteq> []) lines"

text \<open>
  The token of a log line in the words of the specification: the substring before the
  first space, the literal \<^verbatim>\<open>null\<close> read as no token; a line without a space gives
  the empty string.
\<close>

definition spec_token :: "string \<Rightarrow> js" where
  "spec_token line =
     (if CHR '' '' \<in> set line
      then (let t = takeWhile (\<lambda>c. c \<noteq> CHR '' '') line in if t = ''null'' then JNull else JStr t)
      else JStr [])"

text \<open>
  Position recovery in the words of the specification: first page when the log is absent;
  otherwise the token of the last non-empty line, and one more than the number of
  non-empty lines.
\<close>

definition spec_getLastPosition :: "string list option \<Rightarrow> Position" where
  "spec_getLastPosition log =
     (case log of
        None \<Rightarrow> \<lparr>nextPageToken = JNull, page = 1\<rparr>
      | Some lines \<Rightarrow>
          \<lparr>nextPageToken = (if nonempty_lines lines = [] then JNull
                             else spec_token (last (nonempty_lines lines))),
           page = 1 + int (length (nonempty_lines lines))\<rparr>)"

text \<open>The actions of the loop that hand work to the write pipeline.\<close>

fun is_push :: "action \<Rightarrow> bool" where
  "is_push (TaskPush j) = True"
| "is_push (LogPush m) = True"
| "is_push a = False"

text \<open>An entry whose \<^verbatim>\<open>value\<close> is the number 0.\<close>

definition zero_valued :: "js \<Rightarrow> bool" where
  "zero_valued entry = (js_get entry ''value'' = Inr (JNum 0))"

section \<open>Property access and truthiness\<close>

lemma js_get_truthy: "js_get j k = Inr v \<Longrightarrow> truthy v \<Longrightarrow> truthy j"
  by (cases j) auto

lemma js_get_total: "truthy j \<Longrightarrow> \<exists>v. js_get j k = Inr v"
  by (cases j) auto

lemma js_get_Inl: "js_get j k = Inl e \<Longrightarrow> e = TypeError"
  by (cases j) auto

lemma typeof_number: "typeof v = ''number'' \<longleftrightarrow> (\<exists>n. v = JNum n)"
  by (cases v) auto

section \<open>Position recovery: the loop against its specification\<close>

lemma indexOf_takeWhile:
  "indexOf l c = (if c \<in> set l then int (length (takeWhile (\<lambda>x. x \<noteq> c) l)) else - 1)"
  by (induction l) (auto simp: Let_def)

lemma substring0_indexOf:
  "substring0 l (indexOf l c) = (if c \<in> set l then takeWhile (\<lambda>x. x \<noteq> c) l else [])"
proof (cases "c \<in> set l")
  case True
  have "length (takeWhile (\<lambda>x. x \<noteq> c) l) \<le> length l" by (rule length_takeWhile_le)
  then show ?thesis using True
    by (simp add: substring0_def indexOf_takeWhile min_def takeWhile_eq_take [symmetric])
next
  case False
  then show ?thesis by (simp add: substring0_def indexOf_takeWhile)
qed

lemma readLines_loop_step:
  "l \<noteq> [] \<Longrightarrow>
   readLines_loop r i (l # ls) = readLines_loop \<lparr>nextPageToken = spec_token l, page = i\<rparr> (i + 1) ls"
  by (simp add: Let_def substring0_indexOf spec_token_def)

text \<open>
  The loop started with counter \<open>i\<close> returns its start record when every line is empty,
  and otherwise the token of the last non-empty line with \<open>i - 1\<close> plus their number.
\<close>

lemma readLines_loop_eq:
  "readLines_loop r i ls =
     (if nonempty_lines ls = [] then r
      else \<lparr>nextPageToken = spec_token (last (nonempty_lines ls)),
             page = i + int (length (nonempty_lines ls)) - 1\<rparr>)"
proof (induction ls arbitrary: r i)
  case Nil
  then show ?case by (simp add: nonempty_lines_def)
next
  case (Cons l ls)
  show ?case
  proof (cases "l = []")
    case True
    then show ?thesis using Cons.IH [of r i] by (simp add: nonempty_lines_def)
  next
    case False
    have "readLines_loop r i (l # ls) =
          readLines_loop \<lparr>nextPageToken = spec_token l, page = i\<rparr> (i + 1) ls"
      using False by (rule readLines_loop_step)
    also have "\<dots> =
      (if nonempty_lines ls = [] then \<lparr>nextPageToken = spec_token l, page = i\<rparr>
       else \<lparr>nextPageToken = spec_token (last (nonempty_lines ls)),
              page = (i + 1) + int (length (nonempty_lines ls)) - 1\<rparr>)"
      by (rule Cons.IH)
    also have "\<dots> =
      (if nonempty_lines (l # ls) = [] then r
       else \<lparr>nextPageToken = spec_token (last (nonempty_lines (l # ls))),
              page = i + int (length (nonempty_lines (l # ls))) - 1\<rparr>)"
      using False by (simp add: nonempty_lines_def)
    finally show ?thesis .
  qed
qed

lemma getLastPosition_refines: "getLastPosition log = spec_getLastPosition log"
  by (cases log) (simp_all add: getLastPosition_def spec_getLastPosition_def readLines_loop_eq)

section \<open>The page fetcher and one pass of the loop\<close>

lemma downloadPage_Inr:
  assumes "downloadPage p fetch = Inr json"
  shows "\<exists>entries. js_get json ''entries'' = Inr entries \<and> truthy entries \<and> truthy json"
proof -
  from assms obtain entries where e: "js_get json ''entries'' = Inr entries" "truthy entries"
    by (auto simp: downloadPage_def split: fetch_outcome.splits body.splits if_splits
        option.splits sum.splits)
  from e have "truthy json" by (rule js_get_truthy)
  with e show ?thesis by blast
qed

lemma downloadPage_429:
  "fetch (searchParams p) = Response 429 b \<Longrightarrow>
   downloadPage p fetch = Inl (case b of BodyUnreadable \<Rightarrow> TextUnreadable | BodyText t \<Rightarrow> Ratelimit)"
  by (simp add: downloadPage_def split: body.splits)

text \<open>
  The branch that reports an unexpected status is dead: no status is below 200 and at
  least 300.
\<close>

lemma downloadPage_never_UnexpectedStatus: "downloadPage p fetch \<noteq> Inl UnexpectedStatus"
  by (auto simp: downloadPage_def split: fetch_outcome.splits body.splits option.splits sum.splits
      dest: js_get_Inl)

lemma iteration_request: "hd (fst (iteration s fetch)) = Fetch (searchParams (position s))"
  by (simp add: iteration_def Let_def split: sum.splits)

lemma iteration_failure:
  assumes "downloadPage (position s) fetch = Inl e"
  shows "iteration s fetch =
    ([Fetch (searchParams (position s)), Sleep (backoff s)],
     Continue (s\<lparr>backoff := backoff s + INCREMENT_BACKOFF\<rparr>))"
  using assms by (simp add: iteration_def back_off_def)

lemma iteration_success:
  assumes "downloadPage (position s) fetch = Inr json"
  shows "\<exists>nextToken. js_get json ''nextPageToken'' = Inr nextToken \<and>
    iteration s fetch =
      ([Fetch (searchParams (position s)), TaskPush json, LogPush (logMessage nextToken (position s))],
       if truthy nextToken
       then Continue \<lparr>position = \<lparr>nextPageToken = nextToken, page = page (position s) + 1\<rparr>,
                      backoff = STARTING_BACKOFF\<rparr>
       else Break)"
proof -
  from downloadPage_Inr [OF assms] obtain entries where
    e: "js_get json ''entries'' = Inr entries" "truthy entries" "truthy json" by blast
  from js_get_total [OF e(3)] obtain nextToken where
    n: "js_get json ''nextPageToken'' = Inr nextToken" by blast
  show ?thesis using assms e n by (simp add: iteration_def)
qed

text \<open>The pass never ends in an uncaught error.\<close>

lemma iteration_no_Throw: "snd (iteration s fetch) \<noteq> Throw e"
proof (cases "downloadPage (position s) fetch")
  case (Inl a)
  then show ?thesis by (simp add: iteration_failure)
next
  case (Inr json)
  from iteration_success [OF this] show ?thesis by (auto split: if_splits)
qed

text \<open>
  Signals do not reach the loop of download.ts: with the teardown calls taken out of the
  trace, a run with signals fetches, sleeps and pushes exactly as the same run without
  them.
\<close>

lemma main_loop_ignores_signals:
  "filter (\<lambda>a. a \<noteq> Teardown) (main_loop s ticks) =
   filter (\<lambda>a. a \<noteq> Teardown) (main_loop s (map (\<lambda>t. t\<lparr>signal := False\<rparr>) ticks))"
proof (induction ticks arbitrary: s)
  case Nil
  show ?case by simp
next
  case (Cons t ticks)
  show ?case
  proof (cases "fst (iteration s (answer t))")
    case Nil
    then show ?thesis using Cons.IH by (simp add: Let_def split: flow.splits)
  next
    case (Cons request rest)
    then show ?thesis using Cons.IH by (simp add: Let_def split: flow.splits)
  qed
qed

section \<open>The write workers\<close>

lemma taskQueue_entry_zero:
  "js_get entry ''value'' = Inr (JNum 0) \<Longrightarrow> taskQueue_entry entry = Inr None"
  by (cases entry) (auto simp: taskQueue_entry_def)

lemma write_entries_drop_zero:
  "write_entries taskQueue_entry (filter (\<lambda>e. \<not> zero_valued e) es) = write_entries taskQueue_entry es"
proof (induction es)
  case Nil
  show ?case by simp
next
  case (Cons a es)
  show ?case
  proof (cases "zero_valued a")
    case True
    then have "taskQueue_entry a = Inr None" by (simp add: zero_valued_def taskQueue_entry_zero)
    with True Cons show ?thesis by simp
  next
    case False
    with Cons show ?thesis by (simp split: sum.splits option.splits)
  qed
qed

text \<open>
  The later revision writes a row exactly for the entries with a truthy id and a value of
  type number, zero included.
\<close>

lemma writeTaskQueue_entry_row:
  "writeTaskQueue_entry entry = Inr (Some r) \<longleftrightarrow>
     (\<exists>i n. js_get entry ''id'' = Inr i \<and> truthy i \<and> js_get entry ''value'' = Inr (JNum n) \<and>
        r = js_to_string i @ '','' @ int_to_string n @ ''\<newline>'')"
  by (auto simp: writeTaskQueue_entry_def typeof_number split: sum.splits if_splits)

lemma writeTaskQueue_worker_example:
  "writeTaskQueue_worker
     (JObj [(''entries'', JObj [(''a'', JObj [(''id'', JStr ''1''), (''value'', JNum 10)]),
                                (''b'', JObj [(''id'', JStr ''2''), (''value'', JStr ''x'')])])], m)
   = ([DataWrite ''1,10\<newline>'', LogWrite (m @ ''\<newline>'')], None)"
  by (simp add: writeTaskQueue_worker_def writeTaskQueue_entry_def int_to_string_def
      nat_to_string.simps)

text \<open>
  In the later revision the log line of a task is the last thing its worker writes, after
  every row of the task, and only when no entry threw.
\<close>

lemma writeTaskQueue_worker_order:
  "\<exists>rows. writeTaskQueue_worker (json, m) = (map DataWrite rows @ [LogWrite (m @ ''\<newline>'')], None)
        \<or> (LogWrite (m @ ''\<newline>'') \<notin> set (fst (writeTaskQueue_worker (json, m)))
            \<and> fst (writeTaskQueue_worker (json, m)) = map DataWrite rows)"
  by (auto simp: writeTaskQueue_worker_def split: sum.splits prod.splits option.splits)

subsection \<open>The suspended task worker against the worker run to its end\<close>

lemma task_step_idle: "inflight p = None \<Longrightarrow> taskQueue p = [] \<Longrightarrow> task_step p = p"
  by (simp add: task_step_def)

lemma task_steps_idle:
  "inflight p = None \<Longrightarrow> taskQueue p = [] \<Longrightarrow> run_schedule (replicate n TaskWorker) p = p"
  by (induction n) (simp_all add: run_schedule_def task_step_idle)

lemma run_schedule_Cons: "run_schedule (w # ws) p = run_schedule ws (pipeline_step p w)"
  by (simp add: run_schedule_def)

text \<open>
  The task worker resumed until its task is over, with nothing else in its queue, writes
  what the worker run to its end writes.
\<close>

lemma task_steps_run_worker:
  "length es < n \<Longrightarrow> inflight p = Some es \<Longrightarrow> taskQueue p = [] \<Longrightarrow>
   run_schedule (replicate n TaskWorker) p =
     p\<lparr>inflight := None,
       written := written p @ map DataWrite (fst (write_entries taskQueue_entry es))\<rparr>"
proof (induction es arbitrary: n p)
  case Nil
  then obtain m where n: "n = Suc m" by (cases n) auto
  have "task_step p = p\<lparr>inflight := None\<rparr>"
    using Nil by (simp add: task_step_def resume_def)
  then show ?case using Nil n
    by (simp add: run_schedule_Cons task_steps_idle)
next
  case (Cons e es)
  then obtain m where n: "n = Suc m" and m: "length es < m" by (cases n) auto
  show ?case
  proof (cases "taskQueue_entry e")
    case (Inl err)
    then have "task_step p = p\<lparr>inflight := None\<rparr>"
      using Cons.prems by (simp add: task_step_def resume_def)
    then show ?thesis using Cons.prems n Inl
      by (simp add: run_schedule_Cons task_steps_idle)
  next
    case (Inr row)
    show ?thesis
    proof (cases row)
      case None
      let ?q = "p\<lparr>inflight := Some es\<rparr>"
      have same: "task_step p = task_step ?q"
        using Cons.prems Inr None by (simp add: task_step_def resume_def)
      have "run_schedule (replicate (Suc m) TaskWorker) ?q =
            ?q\<lparr>inflight := None,
              written := written ?q @ map DataWrite (fst (write_entries taskQueue_entry es))\<rparr>"
        using m Cons.prems by (intro Cons.IH) simp_all
      then show ?thesis using n same Inr None
        by (simp add: run_schedule_Cons)
    next
      case (Some r)
      let ?q = "p\<lparr>inflight := Some es, written := written p @ [DataWrite r]\<rparr>"
      have step: "task_step p = ?q"
        using Cons.prems Inr Some by (simp add: task_step_def resume_def)
      have "run_schedule (replicate m TaskWorker) ?q =
            ?q\<lparr>inflight := None,
              written := written ?q @ map DataWrite (fst (write_entries taskQueue_entry es))\<rparr>"
        using m Cons.prems by (intro Cons.IH) simp_all
      then show ?thesis using n step Inr Some
        by (simp add: run_schedule_Cons)
    qed
  qed
qed

section \<open>The claims\<close>

subsection \<open>C1: rows before the log line\<close>

text \<open>
  Claim C1 says that the log line of a page is appended to the resume log only after every
  row of that page has been appended to the record store. download.ts pushes the page and
  its log line to two queues with independent workers, and nothing orders the log write
  after the rows. The theorem runs download.ts on a first page with two valid entries: the
  task worker writes row 1 and is suspended at its \<^verbatim>\<open>await\<close>, the log worker writes
  the log line of the page, and only then the task worker writes row 2. (The single
  \<^verbatim>\<open>writeTaskQueue\<close> of the later revision keeps the order:
  \<open>writeTaskQueue_worker_order\<close>.)
\<close>

theorem download_ts_log_line_overtakes_rows:
  "written (run_schedule [TaskWorker, LogWorker, TaskWorker]
     (foldl enqueue empty_pipeline
        (fst (iteration (initial_state None)
           (\<lambda>q. Response 200 (BodyText (Some
              (JObj [(''entries'', JObj [(''a'', JObj [(''id'', JStr ''1''), (''value'', JNum 10)]),
                                         (''b'', JObj [(''id'', JStr ''2''), (''value'', JNum 20)])])]))))))))
   = [DataWrite ''1,10\<newline>'',
      LogWrite ''undefined <- Next page token | Got page 1 (null)\<newline>'',
      DataWrite ''2,20\<newline>'']"
  by (simp add: run_schedule_def empty_pipeline_def iteration_def initial_state_def
      getLastPosition_def downloadPage_def searchParams_def logMessage_def task_step_def
      log_step_def resume_def task_entries_def taskQueue_entry_def logQueue_worker_def
      int_to_string_def nat_to_string.simps)

subsection \<open>C2: position recovery\<close>

text \<open>
  Claim C2, as stated, fails: the page of the recovered position counts the non-empty
  lines of the log and does not read the page number written in the line. A log that
  consists of the single line \<^verbatim>\<open>abc <- Next page token | Got page 5 (xyz)\<close> is
  recovered as token \<^verbatim>\<open>abc\<close> and page 2, not page 6.
\<close>

theorem getLastPosition_single_line_counterexample:
  "getLastPosition (Some [''abc <- Next page token | Got page 5 (xyz)'']) =
     \<lparr>nextPageToken = JStr ''abc'', page = 2\<rparr>"
  by (simp add: getLastPosition_def substring0_def)

text \<open>
  Claim C2, amended: \<open>getLastPosition\<close> returns token none and page 1 when the log is
  absent; when it is present, it returns the token of the last non-empty line (the
  substring before the first space, \<^verbatim>\<open>null\<close> read as none, the empty string when the
  line has no space; none when no line is non-empty) and page 1 plus the number of
  non-empty lines. In particular a log with exactly five non-empty lines whose last one is
  \<^verbatim>\<open>abc <- Next page token | Got page 5 (xyz)\<close> yields token \<^verbatim>\<open>abc\<close> and page 6.
\<close>

theorem getLastPosition_recovers:
  "getLastPosition log = spec_getLastPosition log \<and>
   (\<forall>lines. length (nonempty_lines lines) = 5 \<and>
      last (nonempty_lines lines) = ''abc <- Next page token | Got page 5 (xyz)'' \<longrightarrow>
      getLastPosition (Some lines) = \<lparr>nextPageToken = JStr ''abc'', page = 6\<rparr>)"
proof (intro conjI allI impI)
  show "getLastPosition log = spec_getLastPosition log" by (rule getLastPosition_refines)
next
  fix lines
  assume a: "length (nonempty_lines lines) = 5 \<and>
      last (nonempty_lines lines) = ''abc <- Next page token | Got page 5 (xyz)''"
  then have ne: "nonempty_lines lines \<noteq> []" by auto
  have tok: "spec_token ''abc <- Next page token | Got page 5 (xyz)'' = JStr ''abc''"
    by (simp add: spec_token_def)
  show "getLastPosition (Some lines) = \<lparr>nextPageToken = JStr ''abc'', page = 6\<rparr>"
    using a ne tok by (simp add: getLastPosition_refines spec_getLastPosition_def)
qed

theorem getLastPosition_recovers_witness:
  "getLastPosition (Some [''t1 <- Next page token | Got page 1 (null)'', [],
      ''t2 <- Next page token | Got page 2 (t1)'', ''t3 <- Next page token | Got page 3 (t2)'',
      ''t4 <- Next page token | Got page 4 (t3)'',
      ''abc <- Next page token | Got page 5 (xyz)'']) = \<lparr>nextPageToken = JStr ''abc'', page = 6\<rparr>
   \<and> getLastPosition None = \<lparr>nextPageToken = JNull, page = 1\<rparr>"
  using getLastPosition_recovers [of None]
  by (simp add: nonempty_lines_def spec_getLastPosition_def)

subsection \<open>C3: which entries become rows\<close>

text \<open>
  Claim C3 says that exactly the entries with an id and a numeric value become rows, and
  that of the page \<^verbatim>\<open>{entries:{a:{id:"1",value:10}, b:{id:"2",value:"x"}}}\<close> only
  the row \<^verbatim>\<open>1,10\<close> is appended. The \<^verbatim>\<open>taskQueue\<close> worker of download.ts tests
  \<^verbatim>\<open>id && value\<close>, so on that page it also appends the row \<^verbatim>\<open>2,x\<close>. (The later
  revision tests \<^verbatim>\<open>typeof(value) === "number"\<close> and appends the one row:
  \<open>writeTaskQueue_worker_example\<close>, \<open>writeTaskQueue_entry_row\<close>.)
\<close>

theorem taskQueue_worker_writes_non_numeric:
  "taskQueue_worker
     (JObj [(''entries'', JObj [(''a'', JObj [(''id'', JStr ''1''), (''value'', JNum 10)]),
                                (''b'', JObj [(''id'', JStr ''2''), (''value'', JStr ''x'')])])])
   = ([DataWrite ''1,10\<newline>'', DataWrite ''2,x\<newline>''], None)"
  by (simp add: taskQueue_worker_def task_entries_def taskQueue_entry_def int_to_string_def
      nat_to_string.simps)

subsection \<open>C4: cancellation\<close>

text \<open>
  Claim C4 says that after a cancellation signal the loop starts no new fetch. The loop of
  download.ts is \<^verbatim>\<open>while (true)\<close> and its signal handler, \<^verbatim>\<open>teardown\<close>, sets no
  flag the loop reads (\<open>main_loop_ignores_signals\<close>). The theorem runs it on a first
  page that has a next token, with a signal arriving during that fetch, and then a last
  page: after the teardown of the handler the loop fetches the second page and pushes it
  to the queues whose streams the handler closes.
\<close>

theorem main_loop_fetches_after_signal:
  "main_loop (initial_state None)
     [\<lparr>answer = (\<lambda>q. Response 200 (BodyText (Some
          (JObj [(''entries'', JObj []), (''nextPageToken'', JStr ''t'')])))), signal = True\<rparr>,
      \<lparr>answer = (\<lambda>q. Response 200 (BodyText (Some (JObj [(''entries'', JObj [])])))), signal = False\<rparr>]
   = [Fetch [(''max_page_size'', ''100''), (''order_by'', ''desc'')],
      Teardown,
      TaskPush (JObj [(''entries'', JObj []), (''nextPageToken'', JStr ''t'')]),
      LogPush ''t <- Next page token | Got page 1 (null)'',
      Fetch [(''max_page_size'', ''100''), (''order_by'', ''desc''), (''page_token'', ''t'')],
      TaskPush (JObj [(''entries'', JObj [])]),
      LogPush ''undefined <- Next page token | Got page 2 (t)'',
      Teardown]"
  by (simp add: iteration_def initial_state_def getLastPosition_def downloadPage_def
      searchParams_def logMessage_def STARTING_BACKOFF_def int_to_string_def nat_to_string.simps)

subsection \<open>C5: statuses outside 200..299\<close>

text \<open>
  Claim C5 says that \<open>downloadPage\<close> fails on every status outside 200..299 other than
  429. The status test of the source is \<^verbatim>\<open>status != 429 && status < 200 && status >= 300\<close>,
  which no status satisfies (\<open>downloadPage_never_UnexpectedStatus\<close>), so a response
  with status 500 whose body is JSON with an \<^verbatim>\<open>entries\<close> field is returned as a page.
\<close>

theorem downloadPage_returns_page_on_500:
  "downloadPage \<lparr>nextPageToken = JNull, page = 1\<rparr>
     (\<lambda>q. Response 500 (BodyText (Some (JObj [(''entries'', JObj [])]))))
   = Inr (JObj [(''entries'', JObj [])])"
  by (simp add: downloadPage_def)

subsection \<open>C6: the query of the request\<close>

text \<open>
  Claim C6, as stated, fails: a position whose token is set to the empty string gets no
  \<^verbatim>\<open>page_token\<close> parameter, because the source tests the token by truthiness.
\<close>

theorem searchParams_empty_token_counterexample:
  "searchParams \<lparr>nextPageToken = JStr [], page = 7\<rparr> =
     [(''max_page_size'', ''100''), (''order_by'', ''desc'')]"
  by (simp add: searchParams_def)

text \<open>
  Claim C6, amended: for every position whose token is none or the empty string the query
  has no \<^verbatim>\<open>page_token\<close>; for every position whose token is a non-empty string the
  query carries it verbatim as \<^verbatim>\<open>page_token\<close>; in all cases the query starts with
  \<^verbatim>\<open>max_page_size=100\<close> and \<^verbatim>\<open>order_by=desc\<close>.
\<close>

theorem searchParams_page_token:
  "(nextPageToken p = JNull \<or> nextPageToken p = JStr [] \<longrightarrow>
      searchParams p = [(''max_page_size'', ''100''), (''order_by'', ''desc'')]) \<and>
   (\<forall>t. nextPageToken p = JStr t \<and> t \<noteq> [] \<longrightarrow>
      searchParams p = [(''max_page_size'', ''100''), (''order_by'', ''desc''), (''page_token'', t)]) \<and>
   take 2 (searchParams p) = [(''max_page_size'', ''100''), (''order_by'', ''desc'')]"
  by (auto simp: searchParams_def)

theorem searchParams_page_token_witness:
  "searchParams \<lparr>nextPageToken = JNull, page = 1\<rparr> =
     [(''max_page_size'', ''100''), (''order_by'', ''desc'')] \<and>
   searchParams \<lparr>nextPageToken = JStr ''abc'', page = 6\<rparr> =
     [(''max_page_size'', ''100''), (''order_by'', ''desc''), (''page_token'', ''abc'')]"
  using searchParams_page_token [of "\<lparr>nextPageToken = JNull, page = 1\<rparr>"]
    searchParams_page_token [of "\<lparr>nextPageToken = JStr ''abc'', page = 6\<rparr>"]
  by simp

subsection \<open>C7: a failed fetch changes nothing but the backoff\<close>

text \<open>
  Claim C7: every pass of the loop whose fetch failed (\<open>downloadPage\<close> rejected; a
  response with status 429 is such a failure) continues the loop with the position
  unchanged, pushes nothing to the write pipeline, and the next pass issues the same
  request.
\<close>

theorem failed_fetch_leaves_position:
  assumes "(\<exists>e. downloadPage (position s) fetch = Inl e)
           \<or> (\<exists>b. fetch (searchParams (position s)) = Response 429 b)"
  shows "\<exists>s'. snd (iteration s fetch) = Continue s' \<and> position s' = position s
           \<and> filter is_push (fst (iteration s fetch)) = []
           \<and> foldl enqueue p (fst (iteration s fetch)) = p
           \<and> hd (fst (iteration s' fetch')) = hd (fst (iteration s fetch))"
proof -
  from assms obtain e where "downloadPage (position s) fetch = Inl e"
    by (auto simp: downloadPage_429)
  then have "iteration s fetch =
    ([Fetch (searchParams (position s)), Sleep (backoff s)],
     Continue (s\<lparr>backoff := backoff s + INCREMENT_BACKOFF\<rparr>))"
    by (rule iteration_failure)
  then show ?thesis by (simp add: iteration_request)
qed

theorem failed_fetch_leaves_position_witness:
  "\<exists>s'. snd (iteration \<lparr>position = \<lparr>nextPageToken = JStr ''t'', page = 3\<rparr>, backoff = 5\<rparr>
              (\<lambda>q. Response 429 (BodyText None))) = Continue s'
      \<and> position s' = \<lparr>nextPageToken = JStr ''t'', page = 3\<rparr>
      \<and> filter is_push (fst (iteration \<lparr>position = \<lparr>nextPageToken = JStr ''t'', page = 3\<rparr>, backoff = 5\<rparr>
              (\<lambda>q. Response 429 (BodyText None)))) = []"
  using failed_fetch_leaves_position
    [of "\<lparr>position = \<lparr>nextPageToken = JStr ''t'', page = 3\<rparr>, backoff = 5\<rparr>"
        "\<lambda>q. Response 429 (BodyText None)"]
  by auto

subsection \<open>C8: the backoff\<close>

text \<open>
  Claim C8: the backoff starts at \<open>STARTING_BACKOFF\<close>; a pass whose fetch failed sleeps
  for the current backoff and continues with the backoff increased by
  \<open>INCREMENT_BACKOFF\<close>; a pass whose fetch succeeded does not sleep, and continues with
  the backoff reset to \<open>STARTING_BACKOFF\<close> unless the page has no next token, which ends
  the loop.
\<close>

theorem backoff_controller:
  "backoff (initial_state log) = STARTING_BACKOFF \<and>
   (\<forall>e. downloadPage (position s) fetch = Inl e \<longrightarrow>
      fst (iteration s fetch) = [Fetch (searchParams (position s)), Sleep (backoff s)] \<and>
      snd (iteration s fetch) = Continue (s\<lparr>backoff := backoff s + INCREMENT_BACKOFF\<rparr>)) \<and>
   (\<forall>json. downloadPage (position s) fetch = Inr json \<longrightarrow>
      (\<forall>d. Sleep d \<notin> set (fst (iteration s fetch))) \<and>
      (\<exists>nextToken. js_get json ''nextPageToken'' = Inr nextToken \<and>
         snd (iteration s fetch) =
           (if truthy nextToken
            then Continue \<lparr>position = \<lparr>nextPageToken = nextToken, page = page (position s) + 1\<rparr>,
                           backoff = STARTING_BACKOFF\<rparr>
            else Break)))"
proof (intro conjI allI impI)
  show "backoff (initial_state log) = STARTING_BACKOFF" by (simp add: initial_state_def)
next
  fix e assume "downloadPage (position s) fetch = Inl e"
  then have "iteration s fetch =
    ([Fetch (searchParams (position s)), Sleep (backoff s)],
     Continue (s\<lparr>backoff := backoff s + INCREMENT_BACKOFF\<rparr>))" by (rule iteration_failure)
  then show "fst (iteration s fetch) = [Fetch (searchParams (position s)), Sleep (backoff s)]"
    and "snd (iteration s fetch) = Continue (s\<lparr>backoff := backoff s + INCREMENT_BACKOFF\<rparr>)"
    by simp_all
next
  fix json assume "downloadPage (position s) fetch = Inr json"
  from iteration_success [OF this] obtain nextToken where
    n: "js_get json ''nextPageToken'' = Inr nextToken" and
    it: "iteration s fetch =
      ([Fetch (searchParams (position s)), TaskPush json, LogPush (logMessage nextToken (position s))],
       if truthy nextToken
       then Continue \<lparr>position = \<lparr>nextPageToken = nextToken, page = page (position s) + 1\<rparr>,
                      backoff = STARTING_BACKOFF\<rparr>
       else Break)" by blast
  fix d
  show "Sleep d \<notin> set (fst (iteration s fetch))" using it by simp
  show "\<exists>nextToken. js_get json ''nextPageToken'' = Inr nextToken \<and>
         snd (iteration s fetch) =
           (if truthy nextToken
            then Continue \<lparr>position = \<lparr>nextPageToken = nextToken, page = page (position s) + 1\<rparr>,
                           backoff = STARTING_BACKOFF\<rparr>
            else Break)"
    using n it by simp
qed

theorem backoff_controller_witness:
  "backoff (initial_state None) = 5 \<and>
   iteration (initial_state None) (\<lambda>q. NetworkError) =
     ([Fetch [(''max_page_size'', ''100''), (''order_by'', ''desc'')], Sleep 5],
      Continue \<lparr>position = \<lparr>nextPageToken = JNull, page = 1\<rparr>, backoff = 10\<rparr>) \<and>
   snd (iteration \<lparr>position = \<lparr>nextPageToken = JNull, page = 1\<rparr>, backoff = 20\<rparr>
       (\<lambda>q. Response 200 (BodyText (Some
          (JObj [(''entries'', JObj []), (''nextPageToken'', JStr ''t'')]))))) =
     Continue \<lparr>position = \<lparr>nextPageToken = JStr ''t'', page = 2\<rparr>, backoff = 5\<rparr>"
proof -
  have f: "downloadPage (position (initial_state None)) (\<lambda>q. NetworkError) = Inl FetchFailed"
    by (simp add: downloadPage_def)
  have g: "downloadPage (position \<lparr>position = \<lparr>nextPageToken = JNull, page = 1\<rparr>, backoff = 20\<rparr>)
       (\<lambda>q. Response 200 (BodyText (Some
          (JObj [(''entries'', JObj []), (''nextPageToken'', JStr ''t'')])))) =
       Inr (JObj [(''entries'', JObj []), (''nextPageToken'', JStr ''t'')])"
    by (simp add: downloadPage_def)
  have a: "iteration (initial_state None) (\<lambda>q. NetworkError) =
     ([Fetch [(''max_page_size'', ''100''), (''order_by'', ''desc'')], Sleep 5],
      Continue \<lparr>position = \<lparr>nextPageToken = JNull, page = 1\<rparr>, backoff = 10\<rparr>)"
    using backoff_controller [of None "initial_state None" "\<lambda>q. NetworkError"] f
    by (simp add: prod_eq_iff STARTING_BACKOFF_def INCREMENT_BACKOFF_def initial_state_def
        getLastPosition_def searchParams_def)
  have b: "snd (iteration \<lparr>position = \<lparr>nextPageToken = JNull, page = 1\<rparr>, backoff = 20\<rparr>
       (\<lambda>q. Response 200 (BodyText (Some
          (JObj [(''entries'', JObj []), (''nextPageToken'', JStr ''t'')]))))) =
     Continue \<lparr>position = \<lparr>nextPageToken = JStr ''t'', page = 2\<rparr>, backoff = 5\<rparr>"
    using backoff_controller [of None "\<lparr>position = \<lparr>nextPageToken = JNull, page = 1\<rparr>, backoff = 20\<rparr>"
        "\<lambda>q. Response 200 (BodyText (Some
          (JObj [(''entries'', JObj []), (''nextPageToken'', JStr ''t'')])))"] g
    by (simp add: STARTING_BACKOFF_def)
  show ?thesis
    using backoff_controller [of None] a b by (simp add: STARTING_BACKOFF_def)
qed

subsection \<open>C9: a log line without a separator\<close>

text \<open>
  Claim C9, as stated, fails in its second half: the log \<^verbatim>\<open>abc\<close> is recovered with
  the empty-string token, and the request built from that position has the query of a
  first-page request: the \<^verbatim>\<open>page_token\<close> parameter is dropped.
\<close>

theorem recovery_without_separator_counterexample:
  "nextPageToken (getLastPosition (Some [''abc''])) = JStr [] \<and>
   searchParams (getLastPosition (Some [''abc''])) = searchParams (getLastPosition None)"
  by (simp add: getLastPosition_def substring0_def searchParams_def)

text \<open>
  Claim C9, amended: if the last non-empty line of the log contains no space, the
  recovered token is the empty string rather than none, the page still counts every
  non-empty line, and the request built from the recovered position omits
  \<^verbatim>\<open>page_token\<close>: its query is that of a first-page request.
\<close>

theorem recovery_without_separator:
  assumes "nonempty_lines lines \<noteq> []"
    and "CHR '' '' \<notin> set (last (nonempty_lines lines))"
  shows "nextPageToken (getLastPosition (Some lines)) = JStr [] \<and>
         nextPageToken (getLastPosition (Some lines)) \<noteq> JNull \<and>
         page (getLastPosition (Some lines)) = 1 + int (length (nonempty_lines lines)) \<and>
         searchParams (getLastPosition (Some lines)) = searchParams (getLastPosition None)"
  using assms
  by (simp add: getLastPosition_refines spec_getLastPosition_def spec_token_def searchParams_def)

theorem recovery_without_separator_witness:
  "nextPageToken (getLastPosition (Some [''t1 <- Next page token | Got page 1 (null)'', ''abc'', []])) = JStr [] \<and>
   page (getLastPosition (Some [''t1 <- Next page token | Got page 1 (null)'', ''abc'', []])) = 3 \<and>
   searchParams (getLastPosition (Some [''t1 <- Next page token | Got page 1 (null)'', ''abc'', []])) =
     [(''max_page_size'', ''100''), (''order_by'', ''desc'')]"
  using recovery_without_separator [of "[''t1 <- Next page token | Got page 1 (null)'', ''abc'', []]"]
  by (simp add: nonempty_lines_def getLastPosition_def searchParams_def)

subsection \<open>C10: entries with value 0 in download.ts\<close>

text \<open>
  Claim C10: the \<^verbatim>\<open>taskQueue\<close> worker of download.ts writes no row for an entry whose
  value is the number 0, whatever its id, and raises no error for it: the rows and the
  outcome of a page are those of the page without its zero-valued entries, and a page
  with only such entries writes nothing.
\<close>

theorem taskQueue_drops_zero_value:
  "(zero_valued entry \<longrightarrow> taskQueue_entry entry = Inr None) \<and>
   (\<forall>es. task_entries json = Inr es \<longrightarrow>
      taskQueue_worker json =
        (map DataWrite (fst (write_entries taskQueue_entry (filter (\<lambda>e. \<not> zero_valued e) es))),
         snd (write_entries taskQueue_entry (filter (\<lambda>e. \<not> zero_valued e) es))) \<and>
      ((\<forall>e \<in> set es. zero_valued e) \<longrightarrow> taskQueue_worker json = ([], None)))"
proof (intro conjI impI allI)
  assume "zero_valued entry"
  then show "taskQueue_entry entry = Inr None" by (simp add: zero_valued_def taskQueue_entry_zero)
next
  fix es assume "task_entries json = Inr es"
  then show "taskQueue_worker json =
        (map DataWrite (fst (write_entries taskQueue_entry (filter (\<lambda>e. \<not> zero_valued e) es))),
         snd (write_entries taskQueue_entry (filter (\<lambda>e. \<not> zero_valued e) es)))"
    by (simp add: taskQueue_worker_def write_entries_drop_zero)
next
  fix es assume t: "task_entries json = Inr es" and z: "\<forall>e \<in> set es. zero_valued e"
  from z have "filter (\<lambda>e. \<not> zero_valued e) es = []" by (simp add: filter_empty_conv)
  then have "write_entries taskQueue_entry es = ([], None)"
    using write_entries_drop_zero [of es] by simp
  with t show "taskQueue_worker json = ([], None)" by (simp add: taskQueue_worker_def)
qed

theorem taskQueue_drops_zero_value_witness:
  "taskQueue_entry (JObj [(''id'', JStr ''1''), (''value'', JNum 0)]) = Inr None \<and>
   taskQueue_worker (JObj [(''entries'', JObj [(''a'', JObj [(''id'', JStr ''1''), (''value'', JNum 0)])])])
     = ([], None)"
proof -
  have z: "zero_valued (JObj [(''id'', JStr ''1''), (''value'', JNum 0)])"
    by (simp add: zero_valued_def)
  have t: "task_entries (JObj [(''entries'', JObj [(''a'', JObj [(''id'', JStr ''1''), (''value'', JNum 0)])])])
      = Inr [JObj [(''id'', JStr ''1''), (''value'', JNum 0)]]"
    by (simp add: task_entries_def)
  show ?thesis
    using taskQueue_drops_zero_value [of "JObj [(''id'', JStr ''1''), (''value'', JNum 0)]"
      "JObj [(''entries'', JObj [(''a'', JObj [(''id'', JStr ''1''), (''value'', JNum 0)])])]"] z t
    by simp
qed

end
